theory Spec2Isabelle
  imports Complex_Main
begin

section \<open>Data model of images.py\<close>

text \<open>
  The module draws its randomness from Python's \<^verbatim>\<open>random\<close> library and renders
  with Pillow. Both are outside the repository. Every draw of the library is a
  parameter of the model: \<^verbatim>\<open>random.random()\<close> hands over a real number \<open>u\<close> (the
  library promises \<open>0 \<le> u < 1\<close>), \<^verbatim>\<open>random.choice(seq)\<close> hands over an index
  (the library promises an index below \<open>len(seq)\<close>). Floating-point numbers are
  idealised as reals.
\<close>

text \<open>
  \<open>IndexError\<close> is what indexing a sequence out of range (and \<^verbatim>\<open>random.choice\<close> on
  an empty sequence) raises. \<open>InvalidArgument\<close> is the name the specification gives to
  a rejected weight table; no statement of images.py raises it.
\<close>

datatype error = IndexError | InvalidArgument

text \<open>A Python value that is either a \<^verbatim>\<open>str\<close> or \<^verbatim>\<open>None\<close>.\<close>

type_synonym pyval = "string option"

text \<open>A Python \<^verbatim>\<open>dict\<close> keeps its keys in insertion order: an association list.\<close>

type_synonym 'v pydict = "(string \<times> 'v) list"

subsection \<open>class MetaData\<close>

text \<open>
  \<^verbatim>\<open>__init__\<close> stores its three arguments. The letter is whatever
  \<^verbatim>\<open>get_random_letter\<close> returned, which is \<^verbatim>\<open>None\<close> when its loop ends without a
  \<^verbatim>\<open>return\<close>.
\<close>

record MetaData =
  bg_color :: string
  letter :: pyval
  letter_color :: string

text \<open>\<^verbatim>\<open>self.__dict__\<close>: the instance attributes in the order \<^verbatim>\<open>__init__\<close> assigns them.\<close>

definition instance_dict :: "MetaData \<Rightarrow> pyval pydict" where
  "instance_dict m =
     [(''bg_color'', Some (bg_color m)),
      (''letter'', letter m),
      (''letter_color'', Some (letter_color m))]"

definition to_dict :: "MetaData \<Rightarrow> pyval pydict" where
  "to_dict m =
     [(''bg_color'', Some (bg_color m)),
      (''letter'', letter m),
      (''letter_color'', Some (letter_color m))]"

text \<open>
  \<^verbatim>\<open>[{"trait_type": k, "value": v} for k, v in self.__dict__.items() if k[0] != "_"]\<close>.
  The keys of \<^verbatim>\<open>__dict__\<close> are the three attribute names, none of them empty, so
  \<^verbatim>\<open>k[0]\<close> is the head of the key.
\<close>

definition as_os_metadata :: "MetaData \<Rightarrow> pyval pydict list" where
  "as_os_metadata m =
     [[(''trait_type'', Some k), (''value'', v)].
        (k, v) \<leftarrow> instance_dict m, hd k \<noteq> CHR ''_'']"

text \<open>
  The trait list as the specification words it: every entry of a dictionary, in order,
  turned into the object with the keys \<^verbatim>\<open>trait_type\<close> and \<^verbatim>\<open>value\<close>.
\<close>

definition traits_of_dict :: "pyval pydict \<Rightarrow> pyval pydict list" where
  "traits_of_dict d = map (\<lambda>(k, v). [(''trait_type'', Some k), (''value'', v)]) d"

subsection \<open>Weight tables and get_random_letter\<close>

type_synonym weight_table = "real pydict"

text \<open>The letter frequencies, in the order the dictionary literal lists them.\<close>

definition LETTERS :: weight_table where
  "LETTERS =
     [(''a'', 0.0846402860096712), (''h'', 0.026430828106619526),
      (''e'', 0.10772176322650225), (''d'', 0.03238955368790574),
      (''i'', 0.08956630698939853), (''n'', 0.0719479487121524),
      (''g'', 0.023643469967582403), (''s'', 0.0716180211960545),
      (''l'', 0.05577434674781033), (''m'', 0.030104955866114096),
      (''r'', 0.07043308637891531), (''v'', 0.009464312744959735),
      (''k'', 0.007672746241673479), (''w'', 0.006411696316744151),
      (''o'', 0.07199344608861344), (''f'', 0.011227836840112776),
      (''c'', 0.0437750575370124), (''t'', 0.06606991659100463),
      (''u'', 0.03762718877433788), (''b'', 0.018296526718835086),
      (''y'', 0.02019654294337122), (''x'', 0.0030025406994062735),
      (''j'', 0.001561218150763426), (''p'', 0.03252432893515823),
      (''z'', 0.004222671600222851), (''q'', 0.0016834029290581443)]"

text \<open>
  The loop of \<^verbatim>\<open>get_random_letter\<close>:
  \<^verbatim>\<open>for k, v in LETTERS.items(): rand -= v; if rand < 0: return k\<close>.
  When the items run out the function body ends, and Python returns \<^verbatim>\<open>None\<close>.
\<close>

fun subtract_loop :: "real \<Rightarrow> weight_table \<Rightarrow> pyval" where
  "subtract_loop rand [] = None"
| "subtract_loop rand ((k, v) # kvs) =
     (if rand - v < 0 then Some k else subtract_loop (rand - v) kvs)"

text \<open>
  \<^verbatim>\<open>rand = random.random() * sum(LETTERS.values())\<close>, then the loop. The table is a
  parameter here; \<open>u\<close> is the value \<^verbatim>\<open>random.random()\<close> returned. The function has no
  \<^verbatim>\<open>raise\<close>, no division and no unbounded loop, so its outcome is always a returned
  value; the outcome type still has the error branch, so that "it does not fail" is a
  statement about the function.
\<close>

definition get_random_letter_from :: "weight_table \<Rightarrow> real \<Rightarrow> error + pyval" where
  "get_random_letter_from table u =
     Inr (subtract_loop (u * sum_list (map snd table)) table)"

definition get_random_letter :: "real \<Rightarrow> error + pyval" where
  "get_random_letter u = get_random_letter_from LETTERS u"


subsection \<open>Palettes and get_random_hex_color\<close>

text \<open>The dictionaries \<^verbatim>\<open>_DARKS\<close> and \<^verbatim>\<open>_LIGHTS\<close>.\<close>

definition DARKS_weights :: "int pydict" where
  "DARKS_weights =
     [(''171212'', 5), (''002500'', 4), (''083b49'', 3), (''3d2b00'', 2), (''3c011d'', 1)]"

definition LIGHTS_weights :: "int pydict" where
  "LIGHTS_weights =
     [(''f58eb9'', 5), (''e19451'', 4), (''f8f4a6'', 3), (''bdf7b7'', 2), (''b1b5e7'', 1)]"

text \<open>
  \<^verbatim>\<open>[x for k, v in d.items() for x in [k] * v]\<close>. Python's \<^verbatim>\<open>[k] * v\<close> is the empty
  list when \<open>v \<le> 0\<close>, as \<open>replicate (nat v) k\<close> is.
\<close>

definition expand :: "int pydict \<Rightarrow> string list" where
  "expand d = [x. (k, v) \<leftarrow> d, x \<leftarrow> replicate (nat v) k]"

definition DARKS :: "string list" where
  "DARKS = expand DARKS_weights"

definition LIGHTS :: "string list" where
  "LIGHTS = expand LIGHTS_weights"

text \<open>
  \<^verbatim>\<open>random.choice(seq)\<close> returns \<^verbatim>\<open>seq[i]\<close> for the index \<open>i\<close> the library draws,
  and raises \<^verbatim>\<open>IndexError\<close> on an empty sequence.
\<close>

definition choice :: "'a list \<Rightarrow> nat \<Rightarrow> error + 'a" where
  "choice seq i = (if i < length seq then Inr (seq ! i) else Inl IndexError)"

text \<open>A generator expression is evaluated in order; the first raise ends it.\<close>

fun collect :: "(error + 'a) list \<Rightarrow> error + 'a list" where
  "collect [] = Inr []"
| "collect (Inl e # rs) = Inl e"
| "collect (Inr x # rs) = (case collect rs of Inl e \<Rightarrow> Inl e | Inr xs \<Rightarrow> Inr (x # xs))"

text \<open>
  \<^verbatim>\<open>if not pallete\<close> holds for \<^verbatim>\<open>None\<close> and for the empty list. \<open>d j\<close> is the index
  the \<open>j\<close>-th call of \<^verbatim>\<open>random.choice\<close> inside this call draws.
\<close>

definition get_random_hex_color :: "string list option \<Rightarrow> (nat \<Rightarrow> nat) \<Rightarrow> error + string" where
  "get_random_hex_color pallete d =
     (if pallete = None \<or> pallete = Some [] then
        (case collect (map (\<lambda>j. choice ''abcdef01234567'' (d j)) [0..<6]) of
           Inl e \<Rightarrow> Inl e
         | Inr cs \<Rightarrow> Inr (CHR ''#'' # cs))
      else
        (case choice (the pallete) (d 0) of
           Inl e \<Rightarrow> Inl e
         | Inr c \<Rightarrow> Inr (CHR ''#'' # c)))"

subsection \<open>gen_image\<close>

definition SIZE :: "nat \<times> nat" where
  "SIZE = (1024, 1024)"

definition EXT :: string where
  "EXT = ''.jpg''"

definition FONT_SIZE :: nat where
  "FONT_SIZE = 512"

definition TOTAL_IMAGES :: nat where
  "TOTAL_IMAGES = 1000"

text \<open>
  What Pillow is asked to render: a canvas of a size and colour, and one text drawn at
  its centre. Rendering itself is the library's work and is not modelled.
\<close>

record image =
  img_size :: "nat \<times> nat"
  img_color :: string
  img_text :: pyval
  img_fill :: pyval
  img_font_size :: nat

definition create_bg :: "string \<Rightarrow> image" where
  "create_bg c =
     \<lparr>img_size = SIZE, img_color = c, img_text = None, img_fill = None, img_font_size = 0\<rparr>"

text \<open>The draws one call of \<^verbatim>\<open>gen_image\<close> consumes, in the order it makes them.\<close>

record draws =
  bg_draw :: nat
  fg_draw :: nat
  letter_draw :: real

definition gen_image :: "draws \<Rightarrow> error + image \<times> MetaData" where
  "gen_image ds =
     (case get_random_hex_color (Some DARKS) (\<lambda>j. bg_draw ds) of
        Inl e \<Rightarrow> Inl e
      | Inr bg \<Rightarrow>
     (case get_random_hex_color (Some LIGHTS) (\<lambda>j. fg_draw ds) of
        Inl e \<Rightarrow> Inl e
      | Inr lc \<Rightarrow>
     (case get_random_letter (letter_draw ds) of
        Inl e \<Rightarrow> Inl e
      | Inr l \<Rightarrow>
          Inr ((create_bg bg)\<lparr>img_text := l, img_fill := Some lc, img_font_size := FONT_SIZE\<rparr>,
               \<lparr>bg_color = bg, letter = l, letter_color = lc\<rparr>))))"

subsection \<open>save_output and generate_images\<close>

text \<open>
  The output directory: file name to content. A metadata file holds the text
  \<^verbatim>\<open>json.dumps\<close> makes of the trait list; it is modelled by the value that text
  deserialises to.
\<close>

datatype content = ImageFile image | JsonFile "pyval pydict list"

type_synonym directory = "string \<rightharpoonup> content"

definition save_output :: "string \<Rightarrow> image \<Rightarrow> MetaData \<Rightarrow> directory \<Rightarrow> directory" where
  "save_output image_name img meta dir =
     (dir(image_name @ EXT \<mapsto> ImageFile img))
        (image_name @ ''-meta.json'' \<mapsto> JsonFile (as_os_metadata meta))"

text \<open>\<^verbatim>\<open>str(i)\<close> for a non-negative integer: its decimal digits, no padding.\<close>

definition digit_char :: "nat \<Rightarrow> char" where
  "digit_char d = char_of (48 + d)"

function str :: "nat \<Rightarrow> string" where
  "str n = (if n < 10 then [digit_char n] else str (n div 10) @ [digit_char (n mod 10)])"
  by pat_completeness auto
termination
  by (relation "measure id") auto

declare str.simps [simp del]

text \<open>Reading a decimal numeral back; used to show that \<open>str\<close> is injective.\<close>

definition digits_value :: "string \<Rightarrow> nat" where
  "digits_value cs = foldl (\<lambda>a c. 10 * a + (of_char c - 48)) 0 cs"

text \<open>
  \<^verbatim>\<open>for i in range(n): img, meta = gen_image(); save_output(str(i), img, meta)\<close>.
  \<open>ds i\<close> are the draws of iteration \<open>i\<close>. An exception ends the loop.
\<close>

fun generate_loop :: "(nat \<Rightarrow> draws) \<Rightarrow> nat list \<Rightarrow> directory \<Rightarrow> error + directory" where
  "generate_loop ds [] dir = Inr dir"
| "generate_loop ds (i # is) dir =
     (case gen_image (ds i) of
        Inl e \<Rightarrow> Inl e
      | Inr (img, meta) \<Rightarrow> generate_loop ds is (save_output (str i) img meta dir))"

definition generate_images_total :: "nat \<Rightarrow> (nat \<Rightarrow> draws) \<Rightarrow> directory \<Rightarrow> error + directory" where
  "generate_images_total n ds dir = generate_loop ds [0..<n] dir"

definition generate_images :: "(nat \<Rightarrow> draws) \<Rightarrow> directory \<Rightarrow> error + directory" where
  "generate_images ds dir = generate_images_total TOTAL_IMAGES ds dir"

section \<open>Properties\<close>

text \<open>
  C10. For every MetaData value the two serialisations agree: \<open>as_os_metadata\<close> is the
  list obtained from the entries of \<open>to_dict\<close>, in the same order, each entry
  \<open>(key, value)\<close> turned into the object \<open>{"trait_type": key, "value": value}\<close>.
\<close>

theorem as_os_metadata_refines_to_dict:
  "as_os_metadata m = traits_of_dict (to_dict m)"
  by (simp add: as_os_metadata_def traits_of_dict_def to_dict_def instance_dict_def)

subsection \<open>Lemmas on the subtraction loop\<close>


lemma total_nonneg:
  "\<forall>(k', v) \<in> set (t::weight_table). 0 \<le> v \<Longrightarrow> 0 \<le> sum_list (map snd t)"
  by (induction t) auto

lemma total_nonneg_pos:
  "\<forall>(k', v) \<in> set (t::weight_table). 0 < v \<Longrightarrow> 0 \<le> sum_list (map snd t)"
  by (rule total_nonneg) (auto intro: less_imp_le)



lemma subtract_loop_None_iff:
  "\<forall>(k', v) \<in> set t. 0 < v \<Longrightarrow> t \<noteq> [] \<Longrightarrow>
   (subtract_loop r t = None) = (sum_list (map snd t) \<le> r)"
proof (induction t arbitrary: r)
  case Nil then show ?case by simp
next
  case (Cons a t)
  obtain k' v where a: "a = (k', v)" by (cases a)
  show ?case
  proof (cases "t = []")
    case True
    with a show ?thesis by auto
  next
    case False
    have pos: "0 \<le> sum_list (map snd t)" using Cons.prems(1) by (intro total_nonneg_pos) simp
    have "(subtract_loop (r - v) t = None) = (sum_list (map snd t) \<le> r - v)"
      using Cons.IH[OF _ False] Cons.prems by auto
    with a pos show ?thesis by auto
  qed
qed

lemma subtract_loop_key:
  "subtract_loop r t = Some k \<Longrightarrow> k \<in> fst ` set t"
  by (induction r t rule: subtract_loop.induct) (auto split: if_splits)

lemma total_pos:
  "\<forall>(k', v) \<in> set t. 0 < v \<Longrightarrow> t \<noteq> [] \<Longrightarrow> 0 < sum_list (map snd (t::weight_table))"
  by (cases t) (auto intro!: add_pos_nonneg total_nonneg_pos)


subsection \<open>The weighted sampler\<close>






text \<open>
  C3, as the code has it. The sampler validates nothing and never fails: for every
  table and every draw it returns a value, and for a table whose weights are all 0 (the
  empty table included) that value is \<^verbatim>\<open>None\<close>.
\<close>

theorem sampler_never_raises:
  "(\<exists>res. get_random_letter_from t u = Inr res)
   \<and> get_random_letter_from t u \<noteq> Inl InvalidArgument
   \<and> ((\<forall>(k, v) \<in> set t. v = 0) \<longrightarrow> get_random_letter_from t u = Inr None)"
proof -
  have "subtract_loop 0 t = None" if "\<forall>(k, v) \<in> set t. v = 0"
    using that by (induction t) auto
  moreover have "sum_list (map snd t) = 0" if "\<forall>(k, v) \<in> set t. v = 0"
    using that by (induction t) auto
  ultimately show ?thesis by (simp add: get_random_letter_from_def)
qed

theorem sampler_never_raises_witness:
  "get_random_letter_from [(''a'', 0), (''b'', 0)] (1 / 2) = Inr None
   \<and> get_random_letter_from [] (1 / 2) = Inr None"
  using sampler_never_raises [of "[(''a'', 0), (''b'', 0)]" "1 / 2"]
    sampler_never_raises [of "[]" "1 / 2"]
  by simp

text \<open>
  The claim as stated fails: the empty table, a table of zero weights and a table with
  one zero weight all make the sampler return normally.
\<close>

theorem sampler_no_InvalidArgument_counterexample:
  "get_random_letter_from [] (1 / 2) = Inr None
   \<and> get_random_letter_from [] (1 / 2) \<noteq> Inl InvalidArgument
   \<and> get_random_letter_from [(''a'', 0), (''b'', 0)] (1 / 2) = Inr None
   \<and> get_random_letter_from [(''a'', 0), (''b'', 0)] (1 / 2) \<noteq> Inl InvalidArgument
   \<and> get_random_letter_from [(''a'', 1), (''b'', 0)] (1 / 4) = Inr (Some ''a'')
   \<and> get_random_letter_from [(''a'', 1), (''b'', 0)] (1 / 4) \<noteq> Inl InvalidArgument"
  by (simp add: get_random_letter_from_def)

subsection \<open>Lemmas on palettes and the colour sampler\<close>

lemma expand_Nil: "expand [] = []"
  by (simp add: expand_def)

lemma expand_Cons: "expand ((k, v) # t) = replicate (nat v) k @ expand t"
  by (simp add: expand_def)

lemma length_expand:
  "\<forall>(k, v) \<in> set t. 0 \<le> v \<Longrightarrow> int (length (expand t)) = sum_list (map snd t)"
proof (induction t)
  case Nil then show ?case by (simp add: expand_Nil)
next
  case (Cons a t)
  obtain k v where a: "a = (k, v)" by (cases a)
  with Cons show ?case by (simp add: expand_Cons)
qed

lemma set_expand: "set (expand t) \<subseteq> fst ` set t"
proof (induction t)
  case Nil then show ?case by (simp add: expand_Nil)
next
  case (Cons a t)
  obtain k v where a: "a = (k, v)" by (cases a)
  with Cons show ?case by (auto simp: expand_Cons)
qed

lemma count_expand_absent:
  "k \<notin> fst ` set t \<Longrightarrow> count_list (expand t) k = 0"
  using set_expand[of t] by (auto simp: count_list_0_iff)

lemma count_list_replicate:
  "count_list (replicate n x) y = (if x = y then n else 0)"
  by (induction n) auto

lemma count_expand:
  "distinct (map fst t) \<Longrightarrow> (k, w) \<in> set t \<Longrightarrow> count_list (expand t) k = nat w"
proof (induction t)
  case Nil then show ?case by simp
next
  case (Cons a t)
  obtain k' v where a: "a = (k', v)" by (cases a)
  show ?case
  proof (cases "k' = k")
    case True
    with Cons.prems a have notin: "k \<notin> fst ` set t" by auto
    then have "(k, w) \<notin> set t" by force
    with Cons.prems(2) a True have "w = v" by simp
    with True a count_expand_absent[OF notin] show ?thesis
      by (simp add: expand_Cons count_list_replicate)
  next
    case False
    with Cons a show ?thesis by (auto simp: expand_Cons count_list_replicate)
  qed
qed

lemma card_index_count:
  "card {i. i < length xs \<and> xs ! i = y} = count_list xs y"
proof -
  have "{i. i < length xs \<and> xs ! i = y} = {i. i < length xs \<and> y = xs ! i}" by auto
  then show ?thesis by (simp add: count_list_eq_length_filter length_filter_conv_card)
qed

lemma palette_choice:
  "pallete \<noteq> [] \<Longrightarrow>
   get_random_hex_color (Some pallete) d =
     (if d 0 < length pallete then Inr (CHR ''#'' # pallete ! d 0) else Inl IndexError)"
  by (simp add: get_random_hex_color_def choice_def)

lemma collect_choice_ok:
  "\<forall>j \<in> set js. d j < length A \<Longrightarrow>
   collect (map (\<lambda>j. choice A (d j)) js) = Inr (map (\<lambda>j. A ! d j) js)"
  by (induction js) (simp_all add: choice_def)

lemma collect_choice_Inr:
  "collect (map (\<lambda>j. choice A (d j)) js) = Inr cs \<Longrightarrow>
   length cs = length js \<and> set cs \<subseteq> set A"
proof (induction js arbitrary: cs)
  case Nil then show ?case by simp
next
  case (Cons j js)
  show ?case
  proof (cases "d j < length A")
    case False
    with Cons.prems show ?thesis by (simp add: choice_def)
  next
    case True
    then have c: "choice A (d j) = Inr (A ! d j)" by (simp add: choice_def)
    show ?thesis
    proof (cases "collect (map (\<lambda>j. choice A (d j)) js)")
      case (Inl e)
      with Cons.prems c show ?thesis by simp
    next
      case (Inr cs')
      with Cons.prems c have "cs = A ! d j # cs'" by simp
      with Cons.IH[OF Inr] True show ?thesis by simp
    qed
  qed
qed

lemma fallback_unfold:
  "pallete = None \<or> pallete = Some [] \<Longrightarrow>
   get_random_hex_color pallete d =
     (case collect (map (\<lambda>j. choice ''abcdef01234567'' (d j)) [0..<6]) of
        Inl e \<Rightarrow> Inl e
      | Inr cs \<Rightarrow> Inr (CHR ''#'' # cs))"
  unfolding get_random_hex_color_def by (rule if_P)

lemma fallback_value:
  assumes "\<forall>j<6. d j < 14" and "pallete = None \<or> pallete = Some []"
  shows "get_random_hex_color pallete d =
     Inr (CHR ''#'' # map (\<lambda>j. ''abcdef01234567'' ! d j) [0..<6])"
proof -
  have len: "length ''abcdef01234567'' = 14" by simp
  have "\<forall>j \<in> set [0..<6]. d j < length ''abcdef01234567''"
    unfolding len using assms(1) by simp
  from collect_choice_ok[OF this] show ?thesis
    unfolding fallback_unfold[OF assms(2)] by (simp only: sum.case)
qed

lemma fallback_chars:
  assumes "pallete = None \<or> pallete = Some []" and "get_random_hex_color pallete d = Inr s"
  shows "\<exists>cs. s = CHR ''#'' # cs \<and> length cs = 6 \<and> set cs \<subseteq> set ''abcdef01234567''"
proof (cases "collect (map (\<lambda>j. choice ''abcdef01234567'' (d j)) [0..<6])")
  case (Inl e)
  with assms(2) show ?thesis unfolding fallback_unfold[OF assms(1)] by (simp only: sum.case sum.distinct)
next
  case (Inr cs)
  from collect_choice_Inr[OF Inr] have "length cs = 6" and "set cs \<subseteq> set ''abcdef01234567''"
    by simp_all
  moreover from assms(2) Inr have "s = CHR ''#'' # cs"
    unfolding fallback_unfold[OF assms(1)] by (simp only: sum.case sum.inject)
  ultimately show ?thesis by blast
qed

lemma DARKS_value:
  "DARKS = [''171212'', ''171212'', ''171212'', ''171212'', ''171212'',
            ''002500'', ''002500'', ''002500'', ''002500'',
            ''083b49'', ''083b49'', ''083b49'', ''3d2b00'', ''3d2b00'', ''3c011d'']"
  by (simp add: DARKS_def DARKS_weights_def expand_def numeral_eq_Suc)

lemma LIGHTS_value:
  "LIGHTS = [''f58eb9'', ''f58eb9'', ''f58eb9'', ''f58eb9'', ''f58eb9'',
             ''e19451'', ''e19451'', ''e19451'', ''e19451'',
             ''f8f4a6'', ''f8f4a6'', ''f8f4a6'', ''bdf7b7'', ''bdf7b7'', ''b1b5e7'']"
  by (simp add: LIGHTS_def LIGHTS_weights_def expand_def numeral_eq_Suc)

subsection \<open>The colour sampler\<close>

text \<open>
  C4. Without a palette the sampler returns \<open>#\<close> followed by six characters, each drawn
  from the string \<^verbatim>\<open>"abcdef01234567"\<close>. That string has 14 characters, not the 16 hex
  digits: whatever the draws, neither \<open>8\<close> nor \<open>9\<close> occurs in the result.
\<close>

theorem fallback_hex_alphabet:
  assumes "get_random_hex_color None d = Inr s"
  shows "(\<exists>cs. s = CHR ''#'' # cs \<and> length cs = 6 \<and> set cs \<subseteq> set ''abcdef01234567'')
       \<and> CHR ''8'' \<notin> set s \<and> CHR ''9'' \<notin> set s"
proof -
  from fallback_chars[OF _ assms] obtain cs where
    s: "s = CHR ''#'' # cs" and len: "length cs = 6" and sub: "set cs \<subseteq> set ''abcdef01234567''"
    by blast
  have "CHR ''8'' \<notin> set ''abcdef01234567''" and "CHR ''9'' \<notin> set ''abcdef01234567''"
    by simp_all
  with sub have "CHR ''8'' \<notin> set cs" and "CHR ''9'' \<notin> set cs" by blast+
  with s len sub show ?thesis by simp
qed

theorem fallback_hex_alphabet_witness:
  "get_random_hex_color None (\<lambda>j. 13) = Inr ''#777777''
   \<and> CHR ''8'' \<notin> set ''#777777'' \<and> CHR ''9'' \<notin> set ''#777777''"
proof -
  have v: "get_random_hex_color None (\<lambda>j. 13) = Inr ''#777777''"
    using fallback_value[of "\<lambda>j. 13" None] by (simp add: upt_rec)
  from fallback_hex_alphabet[OF v] v show ?thesis by simp
qed

text \<open>
  C9. An empty palette list takes the same path as a missing palette: the results are
  equal for every sequence of draws, nothing is selected from the empty list, and for
  draws within the alphabet the result is \<open>#\<close> followed by six characters.
\<close>

theorem empty_palette_takes_fallback:
  "get_random_hex_color (Some []) d = get_random_hex_color None d
   \<and> ((\<forall>j<6. d j < 14) \<longrightarrow>
        (\<exists>cs. length cs = 6 \<and> get_random_hex_color (Some []) d = Inr (CHR ''#'' # cs)))"
proof -
  have "get_random_hex_color (Some []) d = get_random_hex_color None d"
    by (simp only: fallback_unfold[of "Some []"] fallback_unfold[of None] simp_thms)
  moreover have "\<exists>cs. length cs = 6 \<and> get_random_hex_color (Some []) d = Inr (CHR ''#'' # cs)"
    if "\<forall>j<6. d j < 14"
  proof -
    from fallback_value[OF that, of "Some []"]
    have "get_random_hex_color (Some []) d =
      Inr (CHR ''#'' # map (\<lambda>j. ''abcdef01234567'' ! d j) [0..<6])" by simp
    moreover have "length (map (\<lambda>j. ''abcdef01234567'' ! d j) [0..<6]) = 6" by simp
    ultimately show ?thesis by blast
  qed
  ultimately show ?thesis by blast
qed

theorem empty_palette_takes_fallback_witness:
  "get_random_hex_color (Some []) (\<lambda>j. j) = Inr ''#abcdef''
   \<and> get_random_hex_color None (\<lambda>j. j) = Inr ''#abcdef''"
proof -
  have "get_random_hex_color None (\<lambda>j. j) = Inr ''#abcdef''"
    using fallback_value[of "\<lambda>j. j" None] by (simp add: upt_rec)
  with empty_palette_takes_fallback[of "\<lambda>j. j"] show ?thesis by simp
qed

text \<open>
  C6, as the code has it. For every weight table whose expansion is not empty, every
  value the sampler returns on the expanded palette is \<open>#\<close> followed by a key of the
  table, and for an index within the palette it does return such a value.
\<close>

theorem palette_sampler_returns_prefixed_key:
  assumes "expand t \<noteq> []"
  shows "(get_random_hex_color (Some (expand t)) d = Inr s \<longrightarrow>
            (\<exists>k \<in> fst ` set t. s = CHR ''#'' # k))
       \<and> (d 0 < length (expand t) \<longrightarrow>
            (\<exists>k \<in> fst ` set t. get_random_hex_color (Some (expand t)) d = Inr (CHR ''#'' # k)))"
proof -
  note pc = palette_choice[OF assms, of d]
  have mem: "expand t ! d 0 \<in> fst ` set t" if "d 0 < length (expand t)"
    using that set_expand[of t] nth_mem by blast
  show ?thesis
  proof (cases "d 0 < length (expand t)")
    case True
    with pc mem show ?thesis by auto
  next
    case False
    with pc show ?thesis by simp
  qed
qed

theorem palette_sampler_returns_prefixed_key_witness:
  "expand DARKS_weights \<noteq> []
   \<and> (\<exists>k \<in> fst ` set DARKS_weights.
        get_random_hex_color (Some (expand DARKS_weights)) (\<lambda>j. 0) = Inr (CHR ''#'' # k))"
proof -
  have ne: "expand DARKS_weights \<noteq> []" using DARKS_value by (simp add: DARKS_def)
  have "(0::nat) < length (expand DARKS_weights)" using ne by simp
  with palette_sampler_returns_prefixed_key[OF ne, of "\<lambda>j. 0"] ne show ?thesis by simp
qed

text \<open>
  The claim as stated fails: the value returned for the first entry of \<open>DARKS\<close> is
  \<open>#171212\<close>, which is a key of neither table; the key is \<open>171212\<close>.
\<close>

theorem palette_sampler_bare_key_counterexample:
  "get_random_hex_color (Some DARKS) (\<lambda>j. 0) = Inr ''#171212''
   \<and> ''#171212'' \<notin> fst ` set DARKS_weights
   \<and> ''#171212'' \<notin> fst ` set LIGHTS_weights"
  by (simp add: DARKS_value get_random_hex_color_def choice_def DARKS_weights_def LIGHTS_weights_def)

text \<open>
  C7, as the code has it. For a table with distinct keys and non-negative integer
  weights, the expansion has length \<open>\<Sum>weights\<close> and holds each colour code exactly
  \<open>weight\<close> times; for the index \<open>i\<close> drawn from \<open>[0, length)\<close> the sampler returns
  \<open>#\<close> followed by the element at \<open>i\<close>; so exactly \<open>weight(k)\<close> of the \<open>\<Sum>weights\<close>
  indices select colour \<open>k\<close>, which under a uniform index is the probability
  \<open>weight(k) / \<Sum>weights\<close>.
\<close>

theorem palette_expansion_and_sampling:
  assumes "distinct (map fst t)" and "\<forall>(k', v) \<in> set t. 0 \<le> v" and "(k, w) \<in> set t"
  shows "int (length (expand t)) = sum_list (map snd t)
       \<and> int (count_list (expand t) k) = w
       \<and> (\<forall>i < length (expand t).
            get_random_hex_color (Some (expand t)) (\<lambda>j. i) = Inr (CHR ''#'' # expand t ! i))
       \<and> int (card {i. i < length (expand t) \<and>
            get_random_hex_color (Some (expand t)) (\<lambda>j. i) = Inr (CHR ''#'' # k)}) = w"
proof -
  have w0: "0 \<le> w" using assms(2,3) by fastforce
  have L: "int (length (expand t)) = sum_list (map snd t)"
    using assms(2) by (rule length_expand)
  have C: "int (count_list (expand t) k) = w"
    using count_expand[OF assms(1,3)] w0 by simp
  have G: "get_random_hex_color (Some (expand t)) (\<lambda>j. i) = Inr (CHR ''#'' # expand t ! i)"
    if "i < length (expand t)" for i
  proof -
    from that have "expand t \<noteq> []" by auto
    from palette_choice[OF this, of "\<lambda>j. i"] that show ?thesis by simp
  qed
  have "{i. i < length (expand t) \<and>
          get_random_hex_color (Some (expand t)) (\<lambda>j. i) = Inr (CHR ''#'' # k)}
        = {i. i < length (expand t) \<and> expand t ! i = k}"
    using G by auto
  then have K: "int (card {i. i < length (expand t) \<and>
          get_random_hex_color (Some (expand t)) (\<lambda>j. i) = Inr (CHR ''#'' # k)}) = w"
    using C by (simp only: card_index_count)
  from L C G K show ?thesis by blast
qed

theorem palette_expansion_and_sampling_witness:
  "int (length DARKS) = 15
   \<and> int (count_list DARKS ''002500'') = 4
   \<and> int (card {i. i < length DARKS \<and>
        get_random_hex_color (Some DARKS) (\<lambda>j. i) = Inr ''#002500''}) = 4"
proof -
  have d: "distinct (map fst DARKS_weights)" by (simp add: DARKS_weights_def)
  have p: "\<forall>(k', v) \<in> set DARKS_weights. 0 \<le> v" by (simp add: DARKS_weights_def)
  have m: "(''002500'', 4) \<in> set DARKS_weights" by (simp add: DARKS_weights_def)
  have s: "sum_list (map snd DARKS_weights) = 15" by (simp add: DARKS_weights_def)
  from palette_expansion_and_sampling [OF d p m] show ?thesis
    unfolding DARKS_def s by blast
qed

text \<open>
  The claim as stated fails: at index 7 the element of \<open>DARKS\<close> is \<open>002500\<close> and the
  sampler returns \<open>#002500\<close>.
\<close>

theorem palette_sampling_not_bare_element_counterexample:
  "choice DARKS 7 = Inr ''002500''
   \<and> get_random_hex_color (Some DARKS) (\<lambda>j. 7) = Inr ''#002500''
   \<and> get_random_hex_color (Some DARKS) (\<lambda>j. 7) \<noteq> choice DARKS 7"
  by (simp add: DARKS_value get_random_hex_color_def choice_def)

subsection \<open>Lemmas on gen_image, file names and the generation loop\<close>

lemma LETTERS_positive: "\<forall>(k, v) \<in> set LETTERS. 0 < v"
  by (simp add: LETTERS_def)

lemma LETTERS_nonempty: "LETTERS \<noteq> []"
  by (simp add: LETTERS_def)

lemma get_random_letter_key:
  assumes "0 \<le> u" and "u < 1"
  shows "\<exists>k \<in> fst ` set LETTERS. get_random_letter u = Inr (Some k)"
proof -
  let ?T = "sum_list (map snd LETTERS)"
  have "0 < ?T" using LETTERS_positive LETTERS_nonempty by (rule total_pos)
  with assms have "u * ?T < ?T" by simp
  then have "subtract_loop (u * ?T) LETTERS \<noteq> None"
    using subtract_loop_None_iff[OF LETTERS_positive LETTERS_nonempty, of "u * ?T"] by simp
  then obtain k where k: "subtract_loop (u * ?T) LETTERS = Some k" by blast
  from subtract_loop_key[OF k] k show ?thesis
    by (simp add: get_random_letter_def get_random_letter_from_def)
qed

lemma get_random_letter_e: "get_random_letter (3 / 20) = Inr (Some ''e'')"
  by (simp add: get_random_letter_def get_random_letter_from_def LETTERS_def)

lemma gen_image_value:
  assumes "choice DARKS (bg_draw ds) = Inr bg" and "choice LIGHTS (fg_draw ds) = Inr fg"
    and "get_random_letter (letter_draw ds) = Inr l"
  shows "gen_image ds =
    Inr (\<lparr>img_size = SIZE, img_color = CHR ''#'' # bg, img_text = l,
          img_fill = Some (CHR ''#'' # fg), img_font_size = FONT_SIZE\<rparr>,
         \<lparr>bg_color = CHR ''#'' # bg, letter = l, letter_color = CHR ''#'' # fg\<rparr>)"
proof -
  from assms(1) have d: "DARKS \<noteq> []" by (auto simp: choice_def split: if_splits)
  from assms(2) have l: "LIGHTS \<noteq> []" by (auto simp: choice_def split: if_splits)
  have b: "get_random_hex_color (Some DARKS) (\<lambda>j. bg_draw ds) = Inr (CHR ''#'' # bg)"
    using d assms(1) by (simp add: get_random_hex_color_def)
  have f: "get_random_hex_color (Some LIGHTS) (\<lambda>j. fg_draw ds) = Inr (CHR ''#'' # fg)"
    using l assms(2) by (simp add: get_random_hex_color_def)
  show ?thesis
    unfolding gen_image_def b f assms(3) by (simp add: create_bg_def)
qed

lemma as_os_metadata_value:
  "as_os_metadata \<lparr>bg_color = b, letter = l, letter_color = f\<rparr> =
     [[(''trait_type'', Some ''bg_color''), (''value'', Some b)],
      [(''trait_type'', Some ''letter''), (''value'', l)],
      [(''trait_type'', Some ''letter_color''), (''value'', Some f)]]"
  by (simp add: as_os_metadata_def instance_dict_def)

lemma save_output_lookup:
  "save_output nm img meta dir x =
     (if x = nm @ ''-meta.json'' then Some (JsonFile (as_os_metadata meta))
      else if x = nm @ EXT then Some (ImageFile img) else dir x)"
  by (simp add: save_output_def)

lemma dom_save_output:
  "dom (save_output nm img meta dir) = insert (nm @ EXT) (insert (nm @ ''-meta.json'') (dom dir))"
  by (auto simp: save_output_def)

lemma digits_value_snoc: "digits_value (cs @ [c]) = 10 * digits_value cs + (of_char c - 48)"
  by (simp add: digits_value_def)

lemma digits_value_digit: "d < 10 \<Longrightarrow> digits_value [digit_char d] = d"
  by (simp add: digits_value_def digit_char_def)

lemma of_char_digit: "d < 10 \<Longrightarrow> of_char (digit_char d) - 48 = d"
  by (simp add: digit_char_def)

lemma digits_value_str: "digits_value (str n) = n"
proof (induction n rule: str.induct)
  case (1 n)
  show ?case
  proof (cases "n < 10")
    case True
    then show ?thesis by (subst str.simps) (simp add: digits_value_digit)
  next
    case False
    with 1 have "digits_value (str (n div 10)) = n div 10" by simp
    with False show ?thesis
      by (subst str.simps) (simp add: digits_value_snoc of_char_digit)
  qed
qed

lemma str_inject: "(str a = str b) = (a = b)"
  by (metis digits_value_str)

lemma image_name_inject: "(str a @ EXT = str b @ EXT) = (a = b)"
  by (simp add: str_inject)

lemma meta_name_inject: "(str a @ ''-meta.json'' = str b @ ''-meta.json'') = (a = b)"
  by (simp add: str_inject)

lemma image_name_not_meta_name: "xs @ EXT \<noteq> ys @ ''-meta.json''"
proof
  assume "xs @ EXT = ys @ ''-meta.json''"
  then have "last (xs @ EXT) = last (ys @ ''-meta.json'')" by simp
  then show False by (simp add: EXT_def)
qed

lemma choice_in_range: "i < length xs \<Longrightarrow> choice xs i = Inr (xs ! i)"
  by (simp add: choice_def)

lemma generate_loop_files:
  assumes "distinct js"
    and "\<forall>i \<in> set js. bg_draw (ds i) < length DARKS \<and> fg_draw (ds i) < length LIGHTS"
  shows "\<exists>dir'. generate_loop ds js dir = Inr dir'
      \<and> dom dir' = dom dir \<union> (\<lambda>i. str i @ EXT) ` set js \<union> (\<lambda>i. str i @ ''-meta.json'') ` set js
      \<and> (\<forall>i \<in> set js. \<exists>img meta. gen_image (ds i) = Inr (img, meta)
            \<and> dir' (str i @ EXT) = Some (ImageFile img)
            \<and> dir' (str i @ ''-meta.json'') = Some (JsonFile (as_os_metadata meta)))
      \<and> (\<forall>x. x \<notin> (\<lambda>i. str i @ EXT) ` set js \<union> (\<lambda>i. str i @ ''-meta.json'') ` set js
            \<longrightarrow> dir' x = dir x)"
  using assms
proof (induction js arbitrary: dir)
  case Nil
  then show ?case by simp
next
  case (Cons i js)
  let ?I = "\<lambda>i. str i @ EXT" and ?M = "\<lambda>i. str i @ ''-meta.json''"
  from Cons.prems have fresh: "i \<notin> set js" and dist: "distinct js"
    and ok_i: "bg_draw (ds i) < length DARKS" "fg_draw (ds i) < length LIGHTS"
    and ok_js: "\<forall>i \<in> set js. bg_draw (ds i) < length DARKS \<and> fg_draw (ds i) < length LIGHTS"
    by simp_all
  obtain l where l: "get_random_letter (letter_draw (ds i)) = Inr l"
    by (simp add: get_random_letter_def get_random_letter_from_def)
  from gen_image_value[OF choice_in_range[OF ok_i(1)] choice_in_range[OF ok_i(2)] l]
  obtain img meta where g: "gen_image (ds i) = Inr (img, meta)" by blast
  let ?d1 = "save_output (str i) img meta dir"
  from Cons.IH[OF dist ok_js, of ?d1] obtain dir' where
    L: "generate_loop ds js ?d1 = Inr dir'"
    and D: "dom dir' = dom ?d1 \<union> ?I ` set js \<union> ?M ` set js"
    and F: "\<forall>j \<in> set js. \<exists>img meta. gen_image (ds j) = Inr (img, meta)
            \<and> dir' (?I j) = Some (ImageFile img)
            \<and> dir' (?M j) = Some (JsonFile (as_os_metadata meta))"
    and K: "\<forall>x. x \<notin> ?I ` set js \<union> ?M ` set js \<longrightarrow> dir' x = ?d1 x"
    by blast
  have run: "generate_loop ds (i # js) dir = Inr dir'" using g L by simp
  have nI: "?I i \<notin> ?I ` set js \<union> ?M ` set js"
  proof
    assume "?I i \<in> ?I ` set js \<union> ?M ` set js"
    then consider j where "j \<in> set js" "?I i = ?I j" | j where "j \<in> set js" "?I i = ?M j"
      by blast
    then show False
    proof cases
      case 1
      then have "i = j" by (simp only: image_name_inject)
      with 1 fresh show False by simp
    next
      case 2
      with image_name_not_meta_name[of "str i" "str j"] show False by simp
    qed
  qed
  have nM: "?M i \<notin> ?I ` set js \<union> ?M ` set js"
  proof
    assume "?M i \<in> ?I ` set js \<union> ?M ` set js"
    then consider j where "j \<in> set js" "?M i = ?I j" | j where "j \<in> set js" "?M i = ?M j"
      by blast
    then show False
    proof cases
      case 1
      with image_name_not_meta_name[of "str j" "str i"] show False by simp
    next
      case 2
      then have "i = j" by (simp only: meta_name_inject)
      with 2 fresh show False by simp
    qed
  qed
  have vI: "dir' (?I i) = Some (ImageFile img)"
    using K nI image_name_not_meta_name[of "str i" "str i"] by (simp add: save_output_lookup)
  have vM: "dir' (?M i) = Some (JsonFile (as_os_metadata meta))"
    using K nM by (simp add: save_output_lookup)
  have dom': "dom dir' = dom dir \<union> ?I ` set (i # js) \<union> ?M ` set (i # js)"
    unfolding D dom_save_output by auto
  have files: "\<forall>j \<in> set (i # js). \<exists>img meta. gen_image (ds j) = Inr (img, meta)
            \<and> dir' (?I j) = Some (ImageFile img)
            \<and> dir' (?M j) = Some (JsonFile (as_os_metadata meta))"
    using F g vI vM by simp
  have frame: "\<forall>x. x \<notin> ?I ` set (i # js) \<union> ?M ` set (i # js) \<longrightarrow> dir' x = dir x"
  proof (intro allI impI)
    fix x assume x: "x \<notin> ?I ` set (i # js) \<union> ?M ` set (i # js)"
    then have "x \<notin> ?I ` set js \<union> ?M ` set js" and "x \<noteq> ?I i" and "x \<noteq> ?M i" by auto
    with K show "dir' x = dir x" by (simp add: save_output_lookup)
  qed
  from run dom' files frame show ?case by blast
qed

lemma card_image_names:
  "card ((\<lambda>i. str i @ EXT) ` {..<n}) = n \<and> card ((\<lambda>i. str i @ ''-meta.json'') ` {..<n}) = n"
proof -
  have "inj_on (\<lambda>i. str i @ EXT) {..<n}"
    by (rule inj_onI) (simp only: image_name_inject)
  moreover have "inj_on (\<lambda>i. str i @ ''-meta.json'') {..<n}"
    by (rule inj_onI) (simp only: meta_name_inject)
  ultimately show ?thesis by (simp add: card_image)
qed

lemma str_0: "str 0 = ''0''"
  by code_simp

lemma str_1: "str (Suc 0) = ''1''"
  by code_simp

lemma choice_DARKS_0: "choice DARKS 0 = Inr ''171212''"
  by (simp add: DARKS_value choice_def)

lemma choice_LIGHTS_0: "choice LIGHTS 0 = Inr ''f58eb9''"
  by (simp add: LIGHTS_value choice_def)

lemma length_DARKS: "length DARKS = 15"
  by (simp add: DARKS_value)

lemma length_LIGHTS: "length LIGHTS = 15"
  by (simp add: LIGHTS_value)

subsection \<open>Metadata and the batch generator\<close>

text \<open>
  C8. For a total of \<open>n\<close> items and draws within the library's ranges, the batch
  generator run on an empty output directory ends normally, and the directory then holds
  exactly the files \<open>{i}.jpg\<close> and \<open>{i}-meta.json\<close> for \<open>i = 0 .. n-1\<close>: \<open>n\<close>
  distinct image names, \<open>n\<close> distinct metadata names, no name of both kinds, and under
  each name the image, respectively the trait list, of item \<open>i\<close>.
  \<^verbatim>\<open>generate_images\<close> is this with \<open>n = TOTAL_IMAGES\<close>.
\<close>

theorem generate_images_files:
  assumes "\<forall>i<n. bg_draw (ds i) < length DARKS \<and> fg_draw (ds i) < length LIGHTS
             \<and> 0 \<le> letter_draw (ds i) \<and> letter_draw (ds i) < 1"
  shows "\<exists>dir'. generate_images_total n ds Map.empty = Inr dir'
      \<and> dom dir' = (\<lambda>i. str i @ EXT) ` {..<n} \<union> (\<lambda>i. str i @ ''-meta.json'') ` {..<n}
      \<and> card ((\<lambda>i. str i @ EXT) ` {..<n}) = n
      \<and> card ((\<lambda>i. str i @ ''-meta.json'') ` {..<n}) = n
      \<and> (\<lambda>i. str i @ EXT) ` {..<n} \<inter> (\<lambda>i. str i @ ''-meta.json'') ` {..<n} = {}
      \<and> (\<forall>i<n. \<exists>img meta. gen_image (ds i) = Inr (img, meta)
            \<and> letter meta \<noteq> None
            \<and> dir' (str i @ EXT) = Some (ImageFile img)
            \<and> dir' (str i @ ''-meta.json'') = Some (JsonFile (as_os_metadata meta)))"
proof -
  have s: "set [0..<n] = {..<n}" by auto
  have ok: "\<forall>i \<in> set [0..<n]. bg_draw (ds i) < length DARKS \<and> fg_draw (ds i) < length LIGHTS"
    using assms by simp
  from generate_loop_files[OF distinct_upt ok, of Map.empty] obtain dir' where
    L: "generate_loop ds [0..<n] Map.empty = Inr dir'"
    and D: "dom dir' = dom (Map.empty :: directory) \<union> (\<lambda>i. str i @ EXT) ` set [0..<n]
              \<union> (\<lambda>i. str i @ ''-meta.json'') ` set [0..<n]"
    and F: "\<forall>i \<in> set [0..<n]. \<exists>img meta. gen_image (ds i) = Inr (img, meta)
            \<and> dir' (str i @ EXT) = Some (ImageFile img)
            \<and> dir' (str i @ ''-meta.json'') = Some (JsonFile (as_os_metadata meta))"
    by blast
  have run: "generate_images_total n ds Map.empty = Inr dir'"
    using L by (simp add: generate_images_total_def)
  have dom': "dom dir' = (\<lambda>i. str i @ EXT) ` {..<n} \<union> (\<lambda>i. str i @ ''-meta.json'') ` {..<n}"
    using D unfolding s by simp
  have disj: "(\<lambda>i. str i @ EXT) ` {..<n} \<inter> (\<lambda>i. str i @ ''-meta.json'') ` {..<n} = {}"
    using image_name_not_meta_name by fastforce
  have files: "\<exists>img meta. gen_image (ds i) = Inr (img, meta)
            \<and> letter meta \<noteq> None
            \<and> dir' (str i @ EXT) = Some (ImageFile img)
            \<and> dir' (str i @ ''-meta.json'') = Some (JsonFile (as_os_metadata meta))"
    if "i < n" for i
  proof -
    from that have "i \<in> set [0..<n]" by simp
    with F obtain img meta where g: "gen_image (ds i) = Inr (img, meta)"
      and v: "dir' (str i @ EXT) = Some (ImageFile img)"
         "dir' (str i @ ''-meta.json'') = Some (JsonFile (as_os_metadata meta))"
      by blast
    from assms that have "0 \<le> letter_draw (ds i)" "letter_draw (ds i) < 1"
      and b: "bg_draw (ds i) < length DARKS" and f: "fg_draw (ds i) < length LIGHTS" by simp_all
    from get_random_letter_key[OF this(1,2)] obtain k where
      k: "get_random_letter (letter_draw (ds i)) = Inr (Some k)" by blast
    from gen_image_value[OF choice_in_range[OF b] choice_in_range[OF f] k] g
    have "letter meta = Some k" by simp
    with g v show ?thesis by simp
  qed
  from run dom' card_image_names[of n] disj files show ?thesis by blast
qed

theorem generate_images_files_witness:
  "\<exists>dir'. generate_images_total 2
       (\<lambda>i. \<lparr>bg_draw = i, fg_draw = 14, letter_draw = 3 / 20\<rparr>) Map.empty = Inr dir'
     \<and> dom dir' = {''0-meta.json'', ''1-meta.json'', ''0.jpg'', ''1.jpg''}"
proof -
  have h: "\<forall>i<2. bg_draw \<lparr>bg_draw = i, fg_draw = 14, letter_draw = 3 / 20\<rparr> < length DARKS
      \<and> fg_draw \<lparr>bg_draw = i, fg_draw = 14, letter_draw = 3 / 20\<rparr> < length LIGHTS
      \<and> 0 \<le> letter_draw \<lparr>bg_draw = i, fg_draw = 14, letter_draw = 3 / 20\<rparr>
      \<and> letter_draw \<lparr>bg_draw = i, fg_draw = 14, letter_draw = 3 / 20\<rparr> < 1"
    by (simp add: length_DARKS length_LIGHTS)
  have s: "{..<2::nat} = {0, Suc 0}"
    by (simp add: numeral_2_eq_2 lessThan_Suc insert_commute)
  obtain dir' where
    r: "generate_images_total 2
         (\<lambda>i. \<lparr>bg_draw = i, fg_draw = 14, letter_draw = 3 / 20\<rparr>) Map.empty = Inr dir'"
    and d: "dom dir' = (\<lambda>i. str i @ EXT) ` {..<2} \<union> (\<lambda>i. str i @ ''-meta.json'') ` {..<2}"
    using generate_images_files
      [of 2 "\<lambda>i. \<lparr>bg_draw = i, fg_draw = 14, letter_draw = 3 / 20\<rparr>", OF h]
    by (elim exE conjE)
  have "dom dir' = {''0-meta.json'', ''1-meta.json'', ''0.jpg'', ''1.jpg''}"
    unfolding d s by (simp add: str_0 str_1 EXT_def)
  with r show ?thesis by (intro exI conjI)
qed

text \<open>
  C5, as the code has it. For a generated item whose sampled attributes are background
  colour \<open>171212\<close>, letter \<open>e\<close> and letter colour \<open>f58eb9\<close>, the metadata, and the
  content of the metadata file \<^verbatim>\<open>save_output\<close> writes, is the array
  \<open>[{trait_type: bg_color, value: #171212}, {trait_type: letter, value: e},
  {trait_type: letter_color, value: #f58eb9}]\<close>: the colour values carry the \<open>#\<close> prefix
  that \<^verbatim>\<open>get_random_hex_color\<close> adds.
\<close>

theorem metadata_json_has_hash_prefix:
  assumes "choice DARKS (bg_draw ds) = Inr ''171212''"
    and "choice LIGHTS (fg_draw ds) = Inr ''f58eb9''"
    and "get_random_letter (letter_draw ds) = Inr (Some ''e'')"
  shows "\<exists>img meta. gen_image ds = Inr (img, meta)
      \<and> as_os_metadata meta =
          [[(''trait_type'', Some ''bg_color''), (''value'', Some ''#171212'')],
           [(''trait_type'', Some ''letter''), (''value'', Some ''e'')],
           [(''trait_type'', Some ''letter_color''), (''value'', Some ''#f58eb9'')]]
      \<and> save_output nm img meta dir (nm @ ''-meta.json'') =
          Some (JsonFile
            [[(''trait_type'', Some ''bg_color''), (''value'', Some ''#171212'')],
             [(''trait_type'', Some ''letter''), (''value'', Some ''e'')],
             [(''trait_type'', Some ''letter_color''), (''value'', Some ''#f58eb9'')]])"
  unfolding gen_image_value[OF assms]
  by (simp add: as_os_metadata_value save_output_lookup)

theorem metadata_json_has_hash_prefix_witness:
  "\<exists>img meta. gen_image \<lparr>bg_draw = 0, fg_draw = 0, letter_draw = 3 / 20\<rparr> = Inr (img, meta)
      \<and> as_os_metadata meta =
          [[(''trait_type'', Some ''bg_color''), (''value'', Some ''#171212'')],
           [(''trait_type'', Some ''letter''), (''value'', Some ''e'')],
           [(''trait_type'', Some ''letter_color''), (''value'', Some ''#f58eb9'')]]
      \<and> save_output ''0'' img meta Map.empty ''0-meta.json'' =
          Some (JsonFile
            [[(''trait_type'', Some ''bg_color''), (''value'', Some ''#171212'')],
             [(''trait_type'', Some ''letter''), (''value'', Some ''e'')],
             [(''trait_type'', Some ''letter_color''), (''value'', Some ''#f58eb9'')]])"
  using metadata_json_has_hash_prefix
    [of "\<lparr>bg_draw = 0, fg_draw = 0, letter_draw = 3 / 20\<rparr>" "''0''" Map.empty]
    choice_DARKS_0 choice_LIGHTS_0 get_random_letter_e
  by simp

text \<open>
  The claim as stated fails: with the draws that sample \<open>171212\<close>, \<open>e\<close> and
  \<open>f58eb9\<close>, the trait list and the file \<open>0-meta.json\<close> hold \<open>#171212\<close> and
  \<open>#f58eb9\<close>, not the bare codes.
\<close>

theorem metadata_json_bare_colors_counterexample:
  "choice DARKS 0 = Inr ''171212''
   \<and> choice LIGHTS 0 = Inr ''f58eb9''
   \<and> get_random_letter (3 / 20) = Inr (Some ''e'')
   \<and> map_sum id (as_os_metadata \<circ> snd)
        (gen_image \<lparr>bg_draw = 0, fg_draw = 0, letter_draw = 3 / 20\<rparr>) =
      Inr [[(''trait_type'', Some ''bg_color''), (''value'', Some ''#171212'')],
           [(''trait_type'', Some ''letter''), (''value'', Some ''e'')],
           [(''trait_type'', Some ''letter_color''), (''value'', Some ''#f58eb9'')]]
   \<and> map_sum id (as_os_metadata \<circ> snd)
        (gen_image \<lparr>bg_draw = 0, fg_draw = 0, letter_draw = 3 / 20\<rparr>) \<noteq>
      Inr [[(''trait_type'', Some ''bg_color''), (''value'', Some ''171212'')],
           [(''trait_type'', Some ''letter''), (''value'', Some ''e'')],
           [(''trait_type'', Some ''letter_color''), (''value'', Some ''f58eb9'')]]
   \<and> map_sum id (\<lambda>dir. dir ''0-meta.json'')
        (generate_images_total 1 (\<lambda>i. \<lparr>bg_draw = 0, fg_draw = 0, letter_draw = 3 / 20\<rparr>) Map.empty) =
      Inr (Some (JsonFile
          [[(''trait_type'', Some ''bg_color''), (''value'', Some ''#171212'')],
           [(''trait_type'', Some ''letter''), (''value'', Some ''e'')],
           [(''trait_type'', Some ''letter_color''), (''value'', Some ''#f58eb9'')]]))"
proof -
  have g: "gen_image \<lparr>bg_draw = 0, fg_draw = 0, letter_draw = 3 / 20\<rparr> =
    Inr (\<lparr>img_size = SIZE, img_color = ''#171212'', img_text = Some ''e'',
          img_fill = Some ''#f58eb9'', img_font_size = FONT_SIZE\<rparr>,
         \<lparr>bg_color = ''#171212'', letter = Some ''e'', letter_color = ''#f58eb9''\<rparr>)"
    using gen_image_value[of "\<lparr>bg_draw = 0, fg_draw = 0, letter_draw = 3 / 20\<rparr>"
        "''171212''" "''f58eb9''" "Some ''e''"]
      choice_DARKS_0 choice_LIGHTS_0 get_random_letter_e
    by simp
  have u: "[0..<1] = [0]" by (simp add: upt_rec)
  show ?thesis
    unfolding generate_images_total_def u
    by (simp add: g choice_DARKS_0 choice_LIGHTS_0 get_random_letter_e as_os_metadata_value
        save_output_lookup str_0)
qed

end
